theory Spec2Isabelle
  imports Complex_Main "HOL-Library.Product_Lexorder"
begin

section \<open>Python values and exceptions\<close>

text \<open>
  The exceptions the modelled code can raise. Every \<^verbatim>\<open>raise\<close> of the source and every
  failing library call (a missing dictionary key, \<^verbatim>\<open>min\<close> of an empty list, ...) is a
  branch of the model that returns \<open>Inl\<close> of one of these.
\<close>

datatype py_error =
    ValueError
  | KeyError
  | TypeError
  | IndexError
  | ZeroDivisionError
  | StatisticsError
  | RuntimeError
  | FileNotFoundError
  | NotADirectoryError
  | JSONDecodeError

section \<open>String helpers of the Python library\<close>

text \<open>
  \<^verbatim>\<open>s.strip(chars)\<close>: every leading and every trailing character that occurs in
  \<open>chars\<close> is removed; \<open>chars\<close> is a set of characters, not a prefix.
\<close>

definition strip :: "string \<Rightarrow> string \<Rightarrow> string" where
  "strip chars s =
     rev (dropWhile (\<lambda>c. c \<in> set chars) (rev (dropWhile (\<lambda>c. c \<in> set chars) s)))"

text \<open>\<^verbatim>\<open>s.split(sep)\<close> for a one-character separator: \<^verbatim>\<open>"".split("-") == [""]\<close>.\<close>

fun split :: "char \<Rightarrow> string \<Rightarrow> string list" where
  "split sep [] = [[]]"
| "split sep (c # cs) =
     (if c = sep then [] # split sep cs
      else (case split sep cs of
              [] \<Rightarrow> [[c]]
            | w # ws \<Rightarrow> (c # w) # ws))"

text \<open>
  \<^verbatim>\<open>int(s)\<close> on an ASCII string: surrounding whitespace is ignored, one sign is allowed,
  and the digits may be grouped by single underscores. Anything else raises ValueError.
\<close>

definition is_digit :: "char \<Rightarrow> bool" where
  "is_digit c = (c \<in> set ''0123456789'')"

definition digit_val :: "char \<Rightarrow> int" where
  "digit_val c = int (length (takeWhile (\<lambda>d. d \<noteq> c) ''0123456789''))"

definition is_space :: "char \<Rightarrow> bool" where
  "is_space c = (c \<in> {CHR '' '', CHR 0x09, CHR 0x0A, CHR 0x0B, CHR 0x0C, CHR 0x0D,
                        CHR 0x1C, CHR 0x1D, CHR 0x1E, CHR 0x1F})"

text \<open>
  The digit groups: \<open>digits_from acc True cs\<close> reads \<open>cs\<close> when the previous character
  was a digit (so an underscore may follow), \<open>digits_from acc False cs\<close> when a digit
  must come next.
\<close>

fun digits_from :: "int \<Rightarrow> bool \<Rightarrow> string \<Rightarrow> py_error + int" where
  "digits_from acc after_digit [] = (if after_digit then Inr acc else Inl ValueError)"
| "digits_from acc after_digit (c # cs) =
     (if is_digit c then digits_from (10 * acc + digit_val c) True cs
      else if c = CHR ''_'' \<and> after_digit then digits_from acc False cs
      else Inl ValueError)"

definition py_int :: "string \<Rightarrow> py_error + int" where
  "py_int s =
     (let t = rev (dropWhile is_space (rev (dropWhile is_space s)))
      in case t of
           [] \<Rightarrow> Inl ValueError
         | c # cs \<Rightarrow>
             if c = CHR ''-'' then
               (case digits_from 0 False cs of Inl e \<Rightarrow> Inl e | Inr n \<Rightarrow> Inr (- n))
             else if c = CHR ''+'' then digits_from 0 False cs
             else digits_from 0 False t)"

text \<open>
  \<^verbatim>\<open>Path(name).stem\<close>: the final path component without its last suffix. A name
  whose only dot is its first or its last character has no suffix.
\<close>

definition rfind_dot :: "string \<Rightarrow> nat option" where
  "rfind_dot name =
     (let after = takeWhile (\<lambda>c. c \<noteq> CHR ''.'') (rev name)
      in if length after = length name then None
         else Some (length name - length after - 1))"

definition stem :: "string \<Rightarrow> string" where
  "stem name =
     (case rfind_dot name of
        None \<Rightarrow> name
      | Some i \<Rightarrow> if 0 < i \<and> i < length name - 1 then take i name else name)"

section \<open>The result record (sampler.py, Utilities.py)\<close>

text \<open>
  \<^verbatim>\<open>Benchmark.parse_file_name\<close>: the name is split on hyphens into exactly three parts
  (the tuple assignment raises ValueError otherwise), the third part is split on dots,
  and its first two components are read with \<^verbatim>\<open>int\<close>, in that order.
\<close>

definition parse_file_name :: "string \<Rightarrow> py_error + (string \<times> string \<times> (int \<times> int))" where
  "parse_file_name file_name =
     (case split CHR ''-'' file_name of
        [target, nuitka_version, python_version] \<Rightarrow>
          (let py_ver_split = split CHR ''.'' python_version
           in case py_ver_split of
                [] \<Rightarrow> Inl IndexError
              | major # rest \<Rightarrow>
                  (case py_int major of
                     Inl e \<Rightarrow> Inl e
                   | Inr ma \<Rightarrow>
                       (case rest of
                          [] \<Rightarrow> Inl IndexError
                        | minor # _ \<Rightarrow>
                            (case py_int minor of
                               Inl e \<Rightarrow> Inl e
                             | Inr mi \<Rightarrow> Inr (target, nuitka_version, (ma, mi))))))
      | _ \<Rightarrow> Inl ValueError)"

text \<open>
  A decoded JSON value, as \<^verbatim>\<open>json.load\<close> returns it. An object lists each key once.
  Numbers are modelled as rationals: every finite float is one, and the arithmetic of the
  model is exact where the interpreter rounds to the nearest float.
\<close>

datatype json =
    JNull
  | JBool bool
  | JNum rat
  | JStr string
  | JArr "json list"
  | JObj "(string \<times> json) list"

text \<open>
  \<^verbatim>\<open>value[key]\<close> with a string key: only a dictionary can be indexed by a string; a
  missing key raises KeyError, every other kind of value raises TypeError.
\<close>

fun getitem :: "json \<Rightarrow> string \<Rightarrow> py_error + json" where
  "getitem (JObj kvs) key =
     (case map_of kvs key of None \<Rightarrow> Inl KeyError | Some v \<Rightarrow> Inr v)"
| "getitem _ key = Inl TypeError"

record 'a Stats =
  name :: string
  warmup :: 'a
  benchmark :: 'a

text \<open>
  \<^verbatim>\<open>Benchmark.parse_stats\<close>: six subscriptions, in the order of the source, and two
  \<^verbatim>\<open>Stats\<close> objects that hold whatever the file holds under those keys. The returned
  dictionary (keys \<^verbatim>\<open>nuitka\<close> and \<^verbatim>\<open>cpython\<close>) is the pair of its two values.
\<close>

definition parse_stats :: "json \<Rightarrow> py_error + (json Stats \<times> json Stats)" where
  "parse_stats stats =
     (case getitem stats ''nuitka'' of
        Inl e \<Rightarrow> Inl e
      | Inr nuitka_stats \<Rightarrow>
     (case getitem stats ''cpython'' of
        Inl e \<Rightarrow> Inl e
      | Inr cpython_stats \<Rightarrow>
     (case getitem nuitka_stats ''warmup'' of
        Inl e \<Rightarrow> Inl e
      | Inr nw \<Rightarrow>
     (case getitem nuitka_stats ''benchmark'' of
        Inl e \<Rightarrow> Inl e
      | Inr nb \<Rightarrow>
     (case getitem cpython_stats ''warmup'' of
        Inl e \<Rightarrow> Inl e
      | Inr cw \<Rightarrow>
     (case getitem cpython_stats ''benchmark'' of
        Inl e \<Rightarrow> Inl e
      | Inr cb \<Rightarrow>
          Inr (\<lparr>name = ''nuitka'', warmup = nw, benchmark = nb\<rparr>,
               \<lparr>name = ''cpython'', warmup = cw, benchmark = cb\<rparr>)))))))"

record Benchmark =
  target :: string
  nuitka_version :: string
  python_version :: "int \<times> int"
  file_json :: json
  nuitka_stats :: "json Stats"
  cpython_stats :: "json Stats"
  benchmark_name :: string

text \<open>
  \<^verbatim>\<open>Benchmark.from_path\<close> on a file, given its name, its size in bytes
  (\<^verbatim>\<open>stat().st_size\<close>) and what \<^verbatim>\<open>json.load\<close> makes of its content (\<open>None\<close> when the
  decoder raises): the size check, the decoder, the file name (its stem), the statistics,
  and the display name \<^verbatim>\<open>benchmark_name.strip("bm_")\<close>.
\<close>

definition from_path :: "string \<Rightarrow> nat \<Rightarrow> json option \<Rightarrow> string \<Rightarrow> py_error + Benchmark" where
  "from_path file_name st_size content bm_name =
     (if \<not> st_size > 0 then Inl FileNotFoundError
      else case content of
        None \<Rightarrow> Inl JSONDecodeError
      | Some fj \<Rightarrow>
     (case parse_file_name (stem file_name) of
        Inl e \<Rightarrow> Inl e
      | Inr file_info \<Rightarrow>
     (case parse_stats fj of
        Inl e \<Rightarrow> Inl e
      | Inr parsed_stats \<Rightarrow>
          Inr \<lparr>target = fst file_info,
               nuitka_version = fst (snd file_info),
               python_version = snd (snd file_info),
               file_json = fj,
               nuitka_stats = fst parsed_stats,
               cpython_stats = snd parsed_stats,
               benchmark_name = strip ''bm_'' bm_name\<rparr>)))"

section \<open>The representative statistic (sampler.py)\<close>

text \<open>\<^verbatim>\<open>min\<close> and \<^verbatim>\<open>max\<close> of a list raise ValueError on the empty list.\<close>

fun py_min :: "rat list \<Rightarrow> py_error + rat" where
  "py_min [] = Inl ValueError"
| "py_min (x # xs) = Inr (fold min xs x)"

fun py_max :: "rat list \<Rightarrow> py_error + rat" where
  "py_max [] = Inl ValueError"
| "py_max (x # xs) = Inr (fold max xs x)"

text \<open>\<^verbatim>\<open>xs[0]\<close> raises IndexError on the empty list.\<close>

fun first :: "'a list \<Rightarrow> py_error + 'a" where
  "first [] = Inl IndexError"
| "first (x # xs) = Inr x"

text \<open>\<^verbatim>\<open>statistics.mean\<close> raises StatisticsError when there is no data point.\<close>

definition mean :: "rat list \<Rightarrow> py_error + rat" where
  "mean xs = (if xs = [] then Inl StatisticsError
              else Inr (sum_list xs / of_nat (length xs)))"

text \<open>
  \<^verbatim>\<open>Benchmark._calculate_stats\<close>. The two flags are booleans used as slice starts:
  \<^verbatim>\<open>xs[True:]\<close> is \<^verbatim>\<open>xs[1:]\<close> and \<^verbatim>\<open>xs[False:]\<close> is \<^verbatim>\<open>xs\<close>. The four statements are
  evaluated in the order of the source, so the first one that raises decides the error.
\<close>

definition calculate_stats :: "rat list Stats \<Rightarrow> py_error + rat" where
  "calculate_stats results =
     (case py_min (warmup results) of Inl e \<Rightarrow> Inl e | Inr min_w \<Rightarrow>
     (case first (warmup results) of Inl e \<Rightarrow> Inl e | Inr w0 \<Rightarrow>
     (case py_min (benchmark results) of Inl e \<Rightarrow> Inl e | Inr min_b \<Rightarrow>
     (case first (benchmark results) of Inl e \<Rightarrow> Inl e | Inr b0 \<Rightarrow>
        (let is_warmup_skewed = (min_w = w0);
             is_benchmark_skewed = (min_b = b0)
         in case mean (drop (of_bool is_warmup_skewed) (warmup results)) of
              Inl e \<Rightarrow> Inl e
            | Inr warmup_mean \<Rightarrow>
           (case mean (drop (of_bool is_benchmark_skewed) (benchmark results)) of
              Inl e \<Rightarrow> Inl e
            | Inr benchmark_mean \<Rightarrow> Inr (min warmup_mean benchmark_mean)))))))"

section \<open>Number formatting\<close>

definition digit_char :: "nat \<Rightarrow> char" where
  "digit_char d = ''0123456789'' ! (d mod 10)"

fun show_nat :: "nat \<Rightarrow> string" where
  "show_nat n = (if n < 10 then [digit_char n]
                 else show_nat (n div 10) @ [digit_char (n mod 10)])"

declare show_nat.simps [simp del]

text \<open>\<^verbatim>\<open>str(i)\<close> of an integer, as an f-string field prints it.\<close>

definition py_str_int :: "int \<Rightarrow> string" where
  "py_str_int i = (if i < 0 then ''-'' @ show_nat (nat (- i)) else show_nat (nat i))"

text \<open>Rounding to the nearest integer, a tie going to the even neighbour.\<close>

definition round_half_even :: "rat \<Rightarrow> int" where
  "round_half_even r =
     (let f = \<lfloor>r\<rfloor>; d = r - of_int f
      in if d < 1 / 2 then f
         else if 1 / 2 < d then f + 1
         else if even f then f else f + 1)"

text \<open>
  The format \<^verbatim>\<open>{x:.2f}\<close>: the sign, the integer part, a point and two decimals, the
  exact value rounded to the nearest hundredth (a tie to the even one).
\<close>

definition format_2f :: "rat \<Rightarrow> string" where
  "format_2f x =
     (let n = nat (round_half_even (\<bar>x\<bar> * 100))
      in (if x < 0 then ''-'' else []) @ show_nat (n div 100) @ ''.'' @
         [digit_char (n mod 100 div 10), digit_char (n mod 10)])"

text \<open>
  \<^verbatim>\<open>format_benchmark_stat\<close> (sampler.py). A division by zero raises
  ZeroDivisionError.
\<close>

definition format_benchmark_stat :: "rat \<Rightarrow> rat \<Rightarrow> py_error + string" where
  "format_benchmark_stat nuitka cpython =
     (if nuitka < cpython then
        (if nuitka = 0 then Inl ZeroDivisionError
         else (let percentage = (cpython / nuitka) * 100 - 100
               in Inr (format_2f nuitka @ '' +[green]'' @ format_2f percentage @ ''%[/green]'')))
      else if nuitka > cpython then
        (if cpython = 0 then Inl ZeroDivisionError
         else (let percentage = (nuitka / cpython) * 100 - 100
               in Inr (format_2f nuitka @ '' -[red]'' @ format_2f percentage @ ''%[/red]'')))
      else Inr (format_2f nuitka))"

section \<open>The benchmark runner (Utilities.py)\<close>

text \<open>
  The subprocesses are the environment of \<^verbatim>\<open>run_benchmark\<close>: \<open>runs k\<close> is the exit code
  of the k-th call of \<^verbatim>\<open>run\<close> (counted from 0) and the time the stopwatch around it
  measures. Every result of the model comes with the number of subprocesses started.

  One timed loop of \<open>n\<close> iterations, \<open>k\<close> subprocesses having run before it: a non-zero
  exit code raises RuntimeError inside the \<^verbatim>\<open>with\<close> block, before the sample is
  appended and before any further iteration.
\<close>

fun timed_loop ::
  "(nat \<Rightarrow> int \<times> rat) \<Rightarrow> nat \<Rightarrow> nat \<Rightarrow> rat list \<Rightarrow> (py_error + rat list) \<times> nat" where
  "timed_loop runs 0 k acc = (Inr acc, k)"
| "timed_loop runs (Suc n) k acc =
     (if fst (runs k) \<noteq> 0 then (Inl RuntimeError, Suc k)
      else timed_loop runs n (Suc k) (acc @ [snd (runs k)]))"

text \<open>
  The trim between the loops:
  \<^verbatim>\<open>if max(warmup) == warmup[0]: warmup.pop(0)\<close>.
\<close>

definition trim_warmup :: "rat list \<Rightarrow> py_error + rat list" where
  "trim_warmup ws =
     (case py_max ws of
        Inl e \<Rightarrow> Inl e
      | Inr m \<Rightarrow>
          (case first ws of
             Inl e \<Rightarrow> Inl e
           | Inr w0 \<Rightarrow> Inr (if m = w0 then tl ws else ws)))"

text \<open>
  \<^verbatim>\<open>run_benchmark\<close>. The execution mode \<open>type\<close> indexes two dictionaries whose keys
  are \<^verbatim>\<open>Nuitka\<close> and \<^verbatim>\<open>CPython\<close>; any other mode raises KeyError before the first
  run. The returned dictionary is the association list of its two keys. The other
  arguments of the source only name the command and the progress bar.
\<close>

definition run_benchmark ::
  "int \<Rightarrow> string \<Rightarrow> (nat \<Rightarrow> int \<times> rat) \<Rightarrow> (py_error + (string \<times> rat list) list) \<times> nat" where
  "run_benchmark iterations type runs =
     (if type \<noteq> ''Nuitka'' \<and> type \<noteq> ''CPython'' then (Inl KeyError, 0)
      else case timed_loop runs (nat iterations) 0 [] of
        (Inl e, k) \<Rightarrow> (Inl e, k)
      | (Inr warm, k) \<Rightarrow>
          (case trim_warmup warm of
             Inl e \<Rightarrow> (Inl e, k)
           | Inr trimmed \<Rightarrow>
               (case timed_loop runs (nat iterations) k [] of
                  (Inl e, k') \<Rightarrow> (Inl e, k')
                | (Inr bench, k') \<Rightarrow>
                    (Inr [(''warmup'', trimmed), (''benchmark'', bench)], k'))))"

section \<open>The environment resolver (Utilities.py)\<close>

text \<open>
  A path is the list of its components. The host is what the resolver reads and calls:
  the interpreter executable, the two prefixes of \<^verbatim>\<open>sys\<close>, the printing and the
  resolution of a path, and \<^verbatim>\<open>run\<close>, which maps a command line to its exit code and
  to the paths that exist once it has finished.
\<close>

type_synonym path = "string list"

record host =
  sys_executable :: path
  sys_prefix :: string
  sys_base_prefix :: string
  path_str :: "path \<Rightarrow> string"
  resolve :: "path \<Rightarrow> path"
  run_command :: "string \<Rightarrow> int \<times> (path \<Rightarrow> bool)"

definition is_in_venv :: "host \<Rightarrow> bool" where
  "is_in_venv h = (sys_prefix h \<noteq> sys_base_prefix h)"

definition resolve_venv_path :: "host \<Rightarrow> py_error + path" where
  "resolve_venv_path h =
     (let resolved_path = resolve h (sys_executable h)
      in if is_in_venv h then Inr resolved_path
         else case run_command h (path_str h resolved_path @ '' -m venv venv'') of
           (returncode, exists) \<Rightarrow>
             if returncode \<noteq> 0 then Inl RuntimeError
             else (let new_venv_path = [''venv'']
                   in if exists new_venv_path
                      then Inr (resolve h (new_venv_path @ [''Scripts'', ''python.exe'']))
                      else Inl FileNotFoundError))"

definition create_venv_with_version :: "host \<Rightarrow> string \<Rightarrow> py_error + path" where
  "create_venv_with_version h version =
     (case run_command h (''py -'' @ version @ '' -m venv '' @ version @ ''_venv'') of
        (returncode, exists) \<Rightarrow>
          if returncode \<noteq> 0 then Inl RuntimeError
          else (let new_venv_path = [version @ ''_venv'']
                in if exists new_venv_path
                   then Inr (resolve h (new_venv_path @ [''Scripts'', ''python.exe'']))
                   else Inl FileNotFoundError))"

section \<open>The aggregator (sampler.py)\<close>

text \<open>
  A node of the file system: a regular file with its name, its size and its decoded
  content (the three arguments of \<open>from_path\<close>), or a directory with its name and its
  entries in iteration order.
\<close>

datatype fsnode =
    File string nat "json option"
  | Dir string "fsnode list"

fun node_name :: "fsnode \<Rightarrow> string" where
  "node_name (File n _ _) = n"
| "node_name (Dir n _) = n"

fun is_dir :: "fsnode \<Rightarrow> bool" where
  "is_dir (Dir _ _) = True"
| "is_dir (File _ _ _) = False"

definition startswith :: "string \<Rightarrow> string \<Rightarrow> bool" where
  "startswith s p = (take (length p) s = p)"

text \<open>
  \<^verbatim>\<open>(item / name).iterdir()\<close>: the entries of the subdirectory \<open>name\<close> of \<open>item\<close>. It
  raises when \<open>item\<close> is a file, when it has no such entry, and when the entry is a file.
\<close>

fun iterdir_child :: "fsnode \<Rightarrow> string \<Rightarrow> py_error + fsnode list" where
  "iterdir_child (File _ _ _) child = Inl NotADirectoryError"
| "iterdir_child (Dir _ entries) child =
     (case find (\<lambda>e. node_name e = child) entries of
        None \<Rightarrow> Inl FileNotFoundError
      | Some (File _ _ _) \<Rightarrow> Inl NotADirectoryError
      | Some (Dir _ es) \<Rightarrow> Inr es)"

text \<open>
  \<^verbatim>\<open>results_container.setdefault(version, []).append(record)\<close> on a dictionary kept
  in insertion order: the record joins the bucket of its version, and a new bucket is
  made, holding the record, when the version has none.
\<close>

type_synonym container = "((int \<times> int) \<times> Benchmark list) list"

fun setdefault_append :: "container \<Rightarrow> Benchmark \<Rightarrow> container" where
  "setdefault_append [] b = [(python_version b, [b])]"
| "setdefault_append ((k, bs) # rest) b =
     (if k = python_version b then (k, bs @ [b]) # rest
      else (k, bs) # setdefault_append rest b)"

text \<open>
  The three nested loops of the module, innermost first. Each threads the container
  through its iterations and stops at the first exception.
\<close>

fun scan_date :: "string \<Rightarrow> fsnode list \<Rightarrow> container \<Rightarrow> py_error + container" where
  "scan_date bm [] c = Inr c"
| "scan_date bm (Dir _ _ # rs) c = scan_date bm rs c"
| "scan_date bm (File n sz content # rs) c =
     (case from_path n sz content bm of
        Inl e \<Rightarrow> Inl e
      | Inr benchmark_result \<Rightarrow> scan_date bm rs (setdefault_append c benchmark_result))"

fun scan_results :: "string \<Rightarrow> fsnode list \<Rightarrow> container \<Rightarrow> py_error + container" where
  "scan_results bm [] c = Inr c"
| "scan_results bm (File _ _ _ # ds) c = scan_results bm ds c"
| "scan_results bm (Dir _ files # ds) c =
     (case scan_date bm files c of
        Inl e \<Rightarrow> Inl e
      | Inr c' \<Rightarrow> scan_results bm ds c')"

fun scan_benchmarks :: "fsnode list \<Rightarrow> container \<Rightarrow> py_error + container" where
  "scan_benchmarks [] c = Inr c"
| "scan_benchmarks (item # items) c =
     (if is_dir item \<and> \<not> startswith (node_name item) ''bm_'' then scan_benchmarks items c
      else case iterdir_child item ''results'' of
        Inl e \<Rightarrow> Inl e
      | Inr dates \<Rightarrow>
          (case scan_results (node_name item) dates c of
             Inl e \<Rightarrow> Inl e
           | Inr c' \<Rightarrow> scan_benchmarks items c'))"

text \<open>
  The container the module builds from the entries of the directory \<^verbatim>\<open>benchmarks\<close>.
\<close>

definition results_container :: "fsnode list \<Rightarrow> py_error + container" where
  "results_container benchmark_items = scan_benchmarks benchmark_items []"

text \<open>
  The result files the same loops parse, in the order they parse them: the walk with
  the container left out. It is what "the files parsed for a version" refers to.
\<close>

fun parsed_date :: "string \<Rightarrow> fsnode list \<Rightarrow> py_error + Benchmark list" where
  "parsed_date bm [] = Inr []"
| "parsed_date bm (Dir _ _ # rs) = parsed_date bm rs"
| "parsed_date bm (File n sz content # rs) =
     (case from_path n sz content bm of
        Inl e \<Rightarrow> Inl e
      | Inr b \<Rightarrow> (case parsed_date bm rs of Inl e \<Rightarrow> Inl e | Inr bs \<Rightarrow> Inr (b # bs)))"

fun parsed_results :: "string \<Rightarrow> fsnode list \<Rightarrow> py_error + Benchmark list" where
  "parsed_results bm [] = Inr []"
| "parsed_results bm (File _ _ _ # ds) = parsed_results bm ds"
| "parsed_results bm (Dir _ files # ds) =
     (case parsed_date bm files of
        Inl e \<Rightarrow> Inl e
      | Inr bs \<Rightarrow> (case parsed_results bm ds of Inl e \<Rightarrow> Inl e | Inr cs \<Rightarrow> Inr (bs @ cs)))"

fun parsed_records :: "fsnode list \<Rightarrow> py_error + Benchmark list" where
  "parsed_records [] = Inr []"
| "parsed_records (item # items) =
     (if is_dir item \<and> \<not> startswith (node_name item) ''bm_'' then parsed_records items
      else case iterdir_child item ''results'' of
        Inl e \<Rightarrow> Inl e
      | Inr dates \<Rightarrow>
          (case parsed_results (node_name item) dates of
             Inl e \<Rightarrow> Inl e
           | Inr bs \<Rightarrow>
               (case parsed_records items of Inl e \<Rightarrow> Inl e | Inr cs \<Rightarrow> Inr (bs @ cs))))"

text \<open>
  \<^verbatim>\<open>sorted(results_container.items(), key=lambda x: x[0], reverse=True)\<close>: a stable
  sort by version, largest first (versions compare as pairs, major before minor).
\<close>

definition sorted_results :: "container \<Rightarrow> container" where
  "sorted_results c = rev (sort_key fst (rev c))"

text \<open>
  The samples of a phase as numbers. A \<^verbatim>\<open>Stats\<close> object holds what the file held; the
  statistic computes on an array of numbers (a JSON boolean counts as 0 or 1 there) and
  raises on every other value. The class of that exception depends on the value; the
  model reports TypeError for all of them.
\<close>

fun number :: "json \<Rightarrow> rat option" where
  "number (JNum r) = Some r"
| "number (JBool b) = Some (of_bool b)"
| "number _ = None"

fun samples :: "json \<Rightarrow> py_error + rat list" where
  "samples (JArr xs) =
     (if list_all (\<lambda>x. number x \<noteq> None) xs then Inr (map (\<lambda>x. the (number x)) xs)
      else Inl TypeError)"
| "samples _ = Inl TypeError"

definition stats_of :: "json Stats \<Rightarrow> py_error + string" where
  "stats_of st =
     (case samples (warmup st) of
        Inl e \<Rightarrow> Inl e
      | Inr ws \<Rightarrow>
          (case samples (benchmark st) of
             Inl e \<Rightarrow> Inl e
           | Inr bs \<Rightarrow>
               (case calculate_stats \<lparr>name = name st, warmup = ws, benchmark = bs\<rparr> of
                  Inl e \<Rightarrow> Inl e
                | Inr r \<Rightarrow> Inr (format_2f r))))"

definition calculate_nuitka_stats :: "Benchmark \<Rightarrow> py_error + string" where
  "calculate_nuitka_stats self = stats_of (nuitka_stats self)"

definition calculate_cpython_stats :: "Benchmark \<Rightarrow> py_error + string" where
  "calculate_cpython_stats self = stats_of (cpython_stats self)"

text \<open>
  A table: its title, its column headers and its rows. \<open>version_str\<close> is the last
  cell of a row, \<^verbatim>\<open>f"{python_version[0]}.{python_version[1]}"\<close>.
\<close>

record Table =
  title :: string
  columns :: "string list"
  rows :: "string list list"

definition version_str :: "int \<times> int \<Rightarrow> string" where
  "version_str v = py_str_int (fst v) @ ''.'' @ py_str_int (snd v)"

fun add_rows :: "int \<times> int \<Rightarrow> Benchmark list \<Rightarrow> Table \<Rightarrow> py_error + Table" where
  "add_rows v [] t = Inr t"
| "add_rows v (b # bs) t =
     (case calculate_cpython_stats b of
        Inl e \<Rightarrow> Inl e
      | Inr c \<Rightarrow>
          (case calculate_nuitka_stats b of
             Inl e \<Rightarrow> Inl e
           | Inr n \<Rightarrow>
               add_rows v bs (t\<lparr>rows := rows t @ [[benchmark_name b, c, n, version_str v]]\<rparr>)))"

definition new_table :: Table where
  "new_table = \<lparr>title = ''Benchmarks'',
                columns = [''Benchmark'', ''CPython'', ''Nuitka Release'', ''Python Version''],
                rows = []\<rparr>"

text \<open>
  The loop over the sorted buckets: one table per bucket, printed once its rows are
  filled. The result is the tables printed and the exception that stopped the loop,
  if one did.
\<close>

fun print_tables :: "container \<Rightarrow> Table list \<Rightarrow> Table list \<times> py_error option" where
  "print_tables [] printed = (printed, None)"
| "print_tables ((v, bs) # rest) printed =
     (case add_rows v bs new_table of
        Inl e \<Rightarrow> (printed, Some e)
      | Inr t \<Rightarrow> print_tables rest (printed @ [t]))"

text \<open>The module, from the entries of \<^verbatim>\<open>benchmarks\<close> to the tables it prints.\<close>

definition sampler :: "fsnode list \<Rightarrow> Table list \<times> py_error option" where
  "sampler benchmark_items =
     (case results_container benchmark_items of
        Inl e \<Rightarrow> ([], Some e)
      | Inr c \<Rightarrow> print_tables (sorted_results c) [])"

section \<open>Notions used in the statements\<close>

text \<open>
  A container is well formed when no bucket is empty and every record lies in the
  bucket of its own version.
\<close>

definition buckets_ok :: "container \<Rightarrow> bool" where
  "buckets_ok c = (\<forall>(k, bs)\<in>set c. bs \<noteq> [] \<and> (\<forall>b\<in>set bs. python_version b = k))"

text \<open>The number a string of decimal digits denotes.\<close>

definition digits_value :: "string \<Rightarrow> int" where
  "digits_value s = foldl (\<lambda>a c. 10 * a + digit_val c) 0 s"

text \<open>
  A printed table has nothing of version \<open>v\<close> when it has a row and none of its rows
  carries \<open>v\<close> in the version column.
\<close>

definition table_without :: "int \<times> int \<Rightarrow> Table \<Rightarrow> bool" where
  "table_without v t = (rows t \<noteq> [] \<and> (\<forall>r\<in>set (rows t). last r \<noteq> version_str v))"

section \<open>Example inputs\<close>

text \<open>
  Concrete inputs for the instances below: two result-file contents (one with samples in
  every phase, one whose four arrays are empty), a host outside any virtual environment
  on which a venv creation exits with 0 and leaves only the environment directory, and
  a \<^verbatim>\<open>benchmarks\<close> directory with one result file for the interpreter version 3.11.
\<close>

definition example_json :: json where
  "example_json =
     JObj [(''nuitka'', JObj [(''warmup'', JArr [JNum 3, JNum 1, JNum 2]),
                              (''benchmark'', JArr [JNum 1, JNum 2])]),
           (''cpython'', JObj [(''warmup'', JArr [JNum 5, JNum 4]),
                               (''benchmark'', JArr [JNum 4, JNum 6])])]"

definition empty_json :: json where
  "empty_json =
     JObj [(''nuitka'', JObj [(''warmup'', JArr []), (''benchmark'', JArr [])]),
           (''cpython'', JObj [(''warmup'', JArr []), (''benchmark'', JArr [])])]"

definition example_host :: host where
  "example_host =
     \<lparr>sys_executable = [''python.exe''], sys_prefix = ''C:/py'', sys_base_prefix = ''C:/py'',
      path_str = concat, resolve = (\<lambda>p. ''C:'' # p),
      run_command = (\<lambda>cmd. (0, \<lambda>p. p = [''venv''] \<or> p = [''3.11_venv'']))\<rparr>"

definition example_tree :: "fsnode list" where
  "example_tree =
     [Dir ''bm_bench''
        [Dir ''results''
           [Dir ''2024-01-01''
              [File ''target-nuitka1.3-3.11.json'' 120 (Some example_json)]]],
      Dir ''docs'' []]"

section \<open>Verification\<close>

subsection \<open>File names\<close>

text \<open>
  C4: the file name \<^verbatim>\<open>target-nuitka1.3-3.11.json\<close> has the stem
  \<^verbatim>\<open>target-nuitka1.3-3.11\<close>, and parsing that stem (split on hyphens, the version
  segment split on dots, its first two components read as integers) yields the target
  \<^verbatim>\<open>target\<close>, the compiler version \<^verbatim>\<open>nuitka1.3\<close> and the interpreter version (3, 11).
\<close>

theorem parse_file_name_example:
  "stem ''target-nuitka1.3-3.11.json'' = ''target-nuitka1.3-3.11'' \<and>
   parse_file_name (stem ''target-nuitka1.3-3.11.json'') =
     Inr (''target'', ''nuitka1.3'', (3, 11))"
  by (simp add: stem_def rfind_dot_def parse_file_name_def py_int_def is_space_def
      is_digit_def digit_val_def)

subsection \<open>The comparison formatter\<close>

lemma digit_char_is_digit: "digit_char d \<in> set ''0123456789''"
proof -
  have "d mod 10 < length ''0123456789''" by simp
  then show ?thesis unfolding digit_char_def by (rule nth_mem)
qed

lemma show_nat_digits: "set (show_nat n) \<subseteq> set ''0123456789''"
proof (induction n rule: show_nat.induct)
  case (1 n)
  show ?case
  proof (cases "n < 10")
    case True
    then have "show_nat n = [digit_char n]" by (simp add: show_nat.simps)
    then show ?thesis using digit_char_is_digit [of n] by simp
  next
    case False
    then have eq: "show_nat n = show_nat (n div 10) @ [digit_char (n mod 10)]"
      by (subst show_nat.simps) simp
    from False 1 have "set (show_nat (n div 10)) \<subseteq> set ''0123456789''" by simp
    then show ?thesis using digit_char_is_digit [of "n mod 10"] unfolding eq by simp
  qed
qed

lemma show_nat_nonempty: "show_nat n \<noteq> []"
  by (subst show_nat.simps) simp

lemma format_2f_chars: "set (format_2f x) \<subseteq> set ''-.0123456789''"
proof -
  define n where "n = nat (round_half_even (\<bar>x\<bar> * 100))"
  have eq: "format_2f x = (if x < 0 then ''-'' else []) @ show_nat (n div 100) @ ''.'' @
         [digit_char (n mod 100 div 10), digit_char (n mod 10)]"
    unfolding format_2f_def n_def Let_def by (rule refl)
  have sub: "set ''0123456789'' \<subseteq> set ''-.0123456789''" by simp
  have a: "set (show_nat (n div 100)) \<subseteq> set ''-.0123456789''"
    using show_nat_digits sub by (rule subset_trans)
  have b: "digit_char (n mod 100 div 10) \<in> set ''-.0123456789''"
    using digit_char_is_digit sub by (rule set_mp [rotated])
  have c: "digit_char (n mod 10) \<in> set ''-.0123456789''"
    using digit_char_is_digit sub by (rule set_mp [rotated])
  have d: "set (if x < 0 then ''-'' else []) \<subseteq> set ''-.0123456789''"
    by (cases "x < 0") simp_all
  have e: "set ''.'' \<subseteq> set ''-.0123456789''" by simp
  have "set ((if x < 0 then ''-'' else []) @ show_nat (n div 100) @ ''.'' @
         [digit_char (n mod 100 div 10), digit_char (n mod 10)]) \<subseteq> set ''-.0123456789''"
    unfolding set_append using a b c d e by (simp only: Un_subset_iff set_simps insert_subset empty_subsetI simp_thms)
  then show ?thesis unfolding eq .
qed

text \<open>
  C6: for equal inputs the comparison formatter returns the number alone, formatted with
  two decimals: an optional minus sign, digits, a point and two digits. The result holds
  no percent sign and no bracket, so no percentage and no colour marker.
\<close>

theorem format_equal_inputs:
  "format_benchmark_stat x x = Inr (format_2f x) \<and>
   set (format_2f x) \<subseteq> set ''-.0123456789'' \<and>
   CHR ''%'' \<notin> set (format_2f x) \<and> CHR ''['' \<notin> set (format_2f x) \<and>
   (\<exists>ds d1 d2. format_2f x = (if x < 0 then ''-'' else []) @ ds @ ''.'' @ [d1, d2] \<and>
      ds \<noteq> [] \<and> set (ds @ [d1, d2]) \<subseteq> set ''0123456789'')"
proof -
  have 1: "format_benchmark_stat x x = Inr (format_2f x)"
    by (simp add: format_benchmark_stat_def)
  have 2: "set (format_2f x) \<subseteq> set ''-.0123456789''" by (rule format_2f_chars)
  have 3: "CHR ''%'' \<notin> set (format_2f x)" using 2 by auto
  have 4: "CHR ''['' \<notin> set (format_2f x)" using 2 by auto
  define n where "n = nat (round_half_even (\<bar>x\<bar> * 100))"
  have eq: "format_2f x = (if x < 0 then ''-'' else []) @ show_nat (n div 100) @ ''.'' @
         [digit_char (n mod 100 div 10), digit_char (n mod 10)]"
    unfolding format_2f_def n_def Let_def by (rule refl)
  have "set (show_nat (n div 100) @ [digit_char (n mod 100 div 10), digit_char (n mod 10)])
          \<subseteq> set ''0123456789''"
    using show_nat_digits [of "n div 100"] digit_char_is_digit [of "n mod 100 div 10"]
      digit_char_is_digit [of "n mod 10"] by simp
  with eq show_nat_nonempty [of "n div 100"]
  have 5: "\<exists>ds d1 d2. format_2f x = (if x < 0 then ''-'' else []) @ ds @ ''.'' @ [d1, d2] \<and>
      ds \<noteq> [] \<and> set (ds @ [d1, d2]) \<subseteq> set ''0123456789''"
    by blast
  from 1 2 3 4 5 show ?thesis by blast
qed

theorem format_equal_inputs_witness:
  "format_benchmark_stat 8 8 = Inr ''8.00'' \<and> format_benchmark_stat (-5 / 2) (-5 / 2) = Inr ''-2.50''"
proof -
  have a: "format_2f 8 = ''8.00''" by code_simp
  have b: "format_2f (-5 / 2) = ''-2.50''" by code_simp
  show ?thesis using format_equal_inputs [of 8] format_equal_inputs [of "-5 / 2"] a b by simp
qed

text \<open>
  C5: for cpython = 10.00 and nuitka = 8.00 the comparison formatter takes the branch
  "nuitka is faster": it shows the nuitka value 8.00 and, in the green marker with a plus
  sign, the gain 10 / 8 * 100 - 100 = 25.00 percent. (These floating-point operations
  are exact, so the rational arithmetic of the model is the interpreter's.)
\<close>

theorem format_nuitka_faster:
  "(10 / 8 * 100 - 100 :: rat) = 25 \<and>
   format_benchmark_stat 8 10 = Inr ''8.00 +[green]25.00%[/green]''"
  by (simp add: format_benchmark_stat_def format_2f_def round_half_even_def show_nat.simps digit_char_def)

subsection \<open>Parsing a result file\<close>

lemma strip_decomp:
  "\<exists>pre suf. s = pre @ strip cs s @ suf \<and> set pre \<subseteq> set cs \<and> set suf \<subseteq> set cs \<and>
     (strip cs s = [] \<or> (hd (strip cs s) \<notin> set cs \<and> last (strip cs s) \<notin> set cs))"
proof -
  let ?P = "\<lambda>c. c \<in> set cs"
  define pre where "pre = takeWhile ?P s"
  define mid where "mid = dropWhile ?P s"
  define suf where "suf = rev (takeWhile ?P (rev mid))"
  have s: "s = pre @ mid" by (simp add: pre_def mid_def)
  have st: "strip cs s = rev (dropWhile ?P (rev mid))" by (simp add: strip_def mid_def)
  have "rev (takeWhile ?P (rev mid) @ dropWhile ?P (rev mid)) = rev (rev mid)"
    by (simp only: takeWhile_dropWhile_id)
  then have "rev (dropWhile ?P (rev mid)) @ rev (takeWhile ?P (rev mid)) = mid"
    by (simp only: rev_append rev_rev_ident)
  then have m: "mid = strip cs s @ suf" unfolding st suf_def by (rule sym)
  have p1: "set pre \<subseteq> set cs" unfolding pre_def by (auto dest: set_takeWhileD)
  have p2: "set suf \<subseteq> set cs" unfolding suf_def by (auto dest: set_takeWhileD)
  have p3: "strip cs s = [] \<or> (hd (strip cs s) \<notin> set cs \<and> last (strip cs s) \<notin> set cs)"
  proof (cases "strip cs s = []")
    case True then show ?thesis by simp
  next
    case False
    then have ne: "dropWhile ?P (rev mid) \<noteq> []" by (simp add: st)
    then have "\<not> ?P (hd (dropWhile ?P (rev mid)))" by (rule hd_dropWhile)
    then have l: "last (strip cs s) \<notin> set cs" using ne by (simp add: st last_rev)
    from False m have "mid \<noteq> []" by (metis append_is_Nil_conv)
    then have "\<not> ?P (hd mid)" unfolding mid_def by (rule hd_dropWhile)
    moreover have "hd mid = hd (strip cs s)" using m False by (metis hd_append2)
    ultimately show ?thesis using l by simp
  qed
  have "pre @ mid = pre @ strip cs s @ suf" using m by (rule arg_cong)
  with s have "s = pre @ strip cs s @ suf" by (rule trans)
  with p1 p2 p3 show ?thesis by blast
qed

lemma getitem_Inr:
  "getitem j k = Inr v \<longleftrightarrow> (\<exists>kvs. j = JObj kvs \<and> map_of kvs k = Some v)"
  by (cases j) (auto split: option.splits)

lemma parse_stats_Inr:
  "parse_stats j = Inr r \<longleftrightarrow>
     (\<exists>ns cs nw nb cw cb.
        getitem j ''nuitka'' = Inr ns \<and> getitem j ''cpython'' = Inr cs \<and>
        getitem ns ''warmup'' = Inr nw \<and> getitem ns ''benchmark'' = Inr nb \<and>
        getitem cs ''warmup'' = Inr cw \<and> getitem cs ''benchmark'' = Inr cb \<and>
        r = (\<lparr>name = ''nuitka'', warmup = nw, benchmark = nb\<rparr>,
             \<lparr>name = ''cpython'', warmup = cw, benchmark = cb\<rparr>))"
  unfolding parse_stats_def by (auto split: sum.splits)

lemma from_path_Inr:
  "from_path n sz content bm = Inr b \<longleftrightarrow>
     (0 < sz \<and> (\<exists>j i r. content = Some j \<and> parse_file_name (stem n) = Inr i \<and>
        parse_stats j = Inr r \<and>
        b = \<lparr>target = fst i, nuitka_version = fst (snd i), python_version = snd (snd i),
             file_json = j, nuitka_stats = fst r, cpython_stats = snd r,
             benchmark_name = strip ''bm_'' bm\<rparr>))"
  unfolding from_path_def by (auto split: option.splits sum.splits)

lemma stats_of_empty:
  "warmup st = JArr [] \<or> benchmark st = JArr [] \<Longrightarrow> isl (stats_of st)"
  unfolding stats_of_def calculate_stats_def
  by (auto split: sum.splits list.splits simp: Let_def)

text \<open>
  C3, as the code has it: parsing a result file succeeds exactly when the file is not
  empty, its name parses, and its content is a JSON object that holds, under both
  \<^verbatim>\<open>nuitka\<close> and \<^verbatim>\<open>cpython\<close>, an object with the keys \<^verbatim>\<open>warmup\<close> and
  \<^verbatim>\<open>benchmark\<close>. The values under these keys are stored unchecked, so an empty
  array is accepted; a record with an empty array fails later, when its statistic is
  computed.
\<close>

theorem parse_accepts_any_values:
  "((\<exists>b. from_path n sz content bm = Inr b) \<longleftrightarrow>
      (0 < sz \<and> (\<exists>i. parse_file_name (stem n) = Inr i) \<and>
       (\<exists>kvs nk ck nw nb cw cb.
          content = Some (JObj kvs) \<and>
          map_of kvs ''nuitka'' = Some (JObj nk) \<and> map_of kvs ''cpython'' = Some (JObj ck) \<and>
          map_of nk ''warmup'' = Some nw \<and> map_of nk ''benchmark'' = Some nb \<and>
          map_of ck ''warmup'' = Some cw \<and> map_of ck ''benchmark'' = Some cb))) \<and>
   (from_path n sz content bm = Inr b \<and>
      (warmup (nuitka_stats b) = JArr [] \<or> benchmark (nuitka_stats b) = JArr [])
        \<longrightarrow> isl (calculate_nuitka_stats b)) \<and>
   (from_path n sz content bm = Inr b \<and>
      (warmup (cpython_stats b) = JArr [] \<or> benchmark (cpython_stats b) = JArr [])
        \<longrightarrow> isl (calculate_cpython_stats b))"
proof -
  have 1: "(\<exists>b. from_path n sz content bm = Inr b) \<longleftrightarrow>
      (0 < sz \<and> (\<exists>i. parse_file_name (stem n) = Inr i) \<and>
       (\<exists>kvs nk ck nw nb cw cb.
          content = Some (JObj kvs) \<and>
          map_of kvs ''nuitka'' = Some (JObj nk) \<and> map_of kvs ''cpython'' = Some (JObj ck) \<and>
          map_of nk ''warmup'' = Some nw \<and> map_of nk ''benchmark'' = Some nb \<and>
          map_of ck ''warmup'' = Some cw \<and> map_of ck ''benchmark'' = Some cb))"
    (is "?L \<longleftrightarrow> ?R")
  proof
    assume ?L
    then obtain b where "from_path n sz content bm = Inr b" ..
    then obtain j i r where sz: "0 < sz" and c: "content = Some j"
      and i: "parse_file_name (stem n) = Inr i" and r: "parse_stats j = Inr r"
      unfolding from_path_Inr by blast
    from r obtain ns cs nw nb cw cb where
      g: "getitem j ''nuitka'' = Inr ns" "getitem j ''cpython'' = Inr cs"
         "getitem ns ''warmup'' = Inr nw" "getitem ns ''benchmark'' = Inr nb"
         "getitem cs ''warmup'' = Inr cw" "getitem cs ''benchmark'' = Inr cb"
      unfolding parse_stats_Inr by blast
    from g(1) obtain kvs where j: "j = JObj kvs" and k1: "map_of kvs ''nuitka'' = Some ns"
      unfolding getitem_Inr by blast
    from g(2) j have k2: "map_of kvs ''cpython'' = Some cs" unfolding getitem_Inr by blast
    from g(3) obtain nk where ns: "ns = JObj nk" and k3: "map_of nk ''warmup'' = Some nw"
      unfolding getitem_Inr by blast
    from g(4) ns have k4: "map_of nk ''benchmark'' = Some nb" unfolding getitem_Inr by blast
    from g(5) obtain ck where cs: "cs = JObj ck" and k5: "map_of ck ''warmup'' = Some cw"
      unfolding getitem_Inr by blast
    from g(6) cs have k6: "map_of ck ''benchmark'' = Some cb" unfolding getitem_Inr by blast
    from sz i c j k1 k2 ns cs k3 k4 k5 k6 show ?R by blast
  next
    assume ?R
    then obtain i kvs nk ck nw nb cw cb where sz: "0 < sz"
      and i: "parse_file_name (stem n) = Inr i"
      and c: "content = Some (JObj kvs)"
      and k: "map_of kvs ''nuitka'' = Some (JObj nk)" "map_of kvs ''cpython'' = Some (JObj ck)"
          "map_of nk ''warmup'' = Some nw" "map_of nk ''benchmark'' = Some nb"
          "map_of ck ''warmup'' = Some cw" "map_of ck ''benchmark'' = Some cb"
      by blast
    have "getitem (JObj kvs) ''nuitka'' = Inr (JObj nk)"
         "getitem (JObj kvs) ''cpython'' = Inr (JObj ck)"
         "getitem (JObj nk) ''warmup'' = Inr nw" "getitem (JObj nk) ''benchmark'' = Inr nb"
         "getitem (JObj ck) ''warmup'' = Inr cw" "getitem (JObj ck) ''benchmark'' = Inr cb"
      using k by simp_all
    then have "\<exists>r. parse_stats (JObj kvs) = Inr r" unfolding parse_stats_Inr by blast
    with sz i c show ?L unfolding from_path_Inr by blast
  qed
  have 2: "from_path n sz content bm = Inr b \<and>
      (warmup (nuitka_stats b) = JArr [] \<or> benchmark (nuitka_stats b) = JArr [])
        \<longrightarrow> isl (calculate_nuitka_stats b)"
    unfolding calculate_nuitka_stats_def using stats_of_empty by blast
  have 3: "from_path n sz content bm = Inr b \<and>
      (warmup (cpython_stats b) = JArr [] \<or> benchmark (cpython_stats b) = JArr [])
        \<longrightarrow> isl (calculate_cpython_stats b)"
    unfolding calculate_cpython_stats_def using stats_of_empty by blast
  from 1 2 3 show ?thesis by blast
qed

lemma parse_example_name:
  "parse_file_name (stem ''target-nuitka1.3-3.11.json'') = Inr (''target'', ''nuitka1.3'', (3, 11))"
  by (simp add: stem_def rfind_dot_def parse_file_name_def py_int_def is_space_def
      is_digit_def digit_val_def)

text \<open>
  C3 as stated fails: a result file whose four arrays are empty is parsed into a record.
\<close>

theorem empty_arrays_accepted:
  "from_path ''target-nuitka1.3-3.11.json'' 120 (Some empty_json) ''bm_bench'' =
     Inr \<lparr>target = ''target'', nuitka_version = ''nuitka1.3'', python_version = (3, 11),
          file_json = empty_json,
          nuitka_stats = \<lparr>name = ''nuitka'', warmup = JArr [], benchmark = JArr []\<rparr>,
          cpython_stats = \<lparr>name = ''cpython'', warmup = JArr [], benchmark = JArr []\<rparr>,
          benchmark_name = ''ench''\<rparr>"
  by (simp add: from_path_def parse_example_name parse_stats_def empty_json_def strip_def)

theorem parse_accepts_any_values_witness:
  "(\<exists>b. from_path ''target-nuitka1.3-3.11.json'' 120 (Some empty_json) ''bm_bench'' = Inr b \<and>
       isl (calculate_nuitka_stats b) \<and> isl (calculate_cpython_stats b))"
proof -
  obtain b where b: "from_path ''target-nuitka1.3-3.11.json'' 120 (Some empty_json) ''bm_bench'' = Inr b"
    and w: "warmup (nuitka_stats b) = JArr []" "warmup (cpython_stats b) = JArr []"
    by (simp add: from_path_def parse_example_name parse_stats_def empty_json_def)
  from parse_accepts_any_values [of "''target-nuitka1.3-3.11.json''" 120 "Some empty_json" "''bm_bench''" b]
    b w show ?thesis by blast
qed

text \<open>
  C10: the display name of a parsed record is the benchmark directory name with every
  leading and every trailing character of the set {b, m, _} removed, as
  \<^verbatim>\<open>str.strip("bm_")\<close> does: the name is a prefix of such characters, the display name, and
  a suffix of such characters, and the display name neither starts nor ends with one.
  So \<^verbatim>\<open>bm_bench\<close> is shown as \<^verbatim>\<open>ench\<close> and \<^verbatim>\<open>bm_concurrent_imap\<close> as
  \<^verbatim>\<open>concurrent_imap\<close>.
\<close>

theorem display_name_strip:
  assumes "from_path file_name st_size content bm_name = Inr b"
  shows "benchmark_name b = strip ''bm_'' bm_name \<and>
         (\<exists>pre suf. bm_name = pre @ benchmark_name b @ suf \<and>
            set pre \<subseteq> set ''bm_'' \<and> set suf \<subseteq> set ''bm_'' \<and>
            (benchmark_name b = [] \<or>
             (hd (benchmark_name b) \<notin> set ''bm_'' \<and> last (benchmark_name b) \<notin> set ''bm_''))) \<and>
         strip ''bm_'' ''bm_bench'' = ''ench'' \<and>
         strip ''bm_'' ''bm_concurrent_imap'' = ''concurrent_imap''"
proof -
  from assms have n: "benchmark_name b = strip ''bm_'' bm_name"
    unfolding from_path_Inr by auto
  have d: "\<exists>pre suf. bm_name = pre @ strip ''bm_'' bm_name @ suf \<and>
            set pre \<subseteq> set ''bm_'' \<and> set suf \<subseteq> set ''bm_'' \<and>
            (strip ''bm_'' bm_name = [] \<or>
             (hd (strip ''bm_'' bm_name) \<notin> set ''bm_'' \<and> last (strip ''bm_'' bm_name) \<notin> set ''bm_''))"
    by (rule strip_decomp)
  have e1: "strip ''bm_'' ''bm_bench'' = ''ench''" by (simp add: strip_def)
  have e2: "strip ''bm_'' ''bm_concurrent_imap'' = ''concurrent_imap''" by (simp add: strip_def)
  from n d e1 e2 show ?thesis by simp
qed

theorem display_name_strip_witness:
  "\<exists>b. from_path ''target-nuitka1.3-3.11.json'' 120 (Some example_json) ''bm_bench'' = Inr b \<and>
       benchmark_name b = ''ench''"
proof -
  obtain b where b: "from_path ''target-nuitka1.3-3.11.json'' 120 (Some example_json) ''bm_bench'' = Inr b"
    by (simp add: from_path_def parse_example_name parse_stats_def example_json_def)
  from display_name_strip [OF b] have "benchmark_name b = ''ench''" by simp
  with b show ?thesis by blast
qed

subsection \<open>The environment resolver\<close>

text \<open>
  C8, as the code has it: both resolvers raise RuntimeError exactly when the
  venv-creation subprocess exits non-zero, raise FileNotFoundError exactly when it exits
  zero and the environment directory does not exist afterwards, and otherwise return
  the resolved path \<^verbatim>\<open>Scripts/python.exe\<close> inside that directory, whose own existence
  is not checked. Inside a virtual environment \<^verbatim>\<open>resolve_venv_path\<close> creates nothing
  and returns the resolved current interpreter.
\<close>

theorem venv_failures:
  assumes "run_command h (''py -'' @ version @ '' -m venv '' @ version @ ''_venv'') = (rc, exists)"
    and "run_command h (path_str h (resolve h (sys_executable h)) @ '' -m venv venv'') = (rc', exists')"
  shows "(create_venv_with_version h version = Inl RuntimeError \<longleftrightarrow> rc \<noteq> 0) \<and>
         (create_venv_with_version h version = Inl FileNotFoundError \<longleftrightarrow>
            rc = 0 \<and> \<not> exists [version @ ''_venv'']) \<and>
         (create_venv_with_version h version = Inr p \<longleftrightarrow>
            rc = 0 \<and> exists [version @ ''_venv''] \<and>
            p = resolve h [version @ ''_venv'', ''Scripts'', ''python.exe'']) \<and>
         (resolve_venv_path h = Inl RuntimeError \<longleftrightarrow> \<not> is_in_venv h \<and> rc' \<noteq> 0) \<and>
         (resolve_venv_path h = Inl FileNotFoundError \<longleftrightarrow>
            \<not> is_in_venv h \<and> rc' = 0 \<and> \<not> exists' [''venv'']) \<and>
         (resolve_venv_path h = Inr p \<longleftrightarrow>
            (is_in_venv h \<and> p = resolve h (sys_executable h)) \<or>
            (\<not> is_in_venv h \<and> rc' = 0 \<and> exists' [''venv''] \<and>
             p = resolve h [''venv'', ''Scripts'', ''python.exe'']))"
proof -
  have c: "create_venv_with_version h version =
        (if rc \<noteq> 0 then Inl RuntimeError
         else if exists [version @ ''_venv'']
              then Inr (resolve h [version @ ''_venv'', ''Scripts'', ''python.exe''])
              else Inl FileNotFoundError)"
    unfolding create_venv_with_version_def assms(1) by (simp add: Let_def)
  have r: "resolve_venv_path h =
        (if is_in_venv h then Inr (resolve h (sys_executable h))
         else if rc' \<noteq> 0 then Inl RuntimeError
         else if exists' [''venv'']
              then Inr (resolve h [''venv'', ''Scripts'', ''python.exe''])
              else Inl FileNotFoundError)"
    unfolding resolve_venv_path_def Let_def assms(2) by simp
  show ?thesis unfolding c r by auto
qed

theorem venv_failures_witness:
  "create_venv_with_version example_host ''3.11'' =
     Inr [''C:'', ''3.11_venv'', ''Scripts'', ''python.exe''] \<and>
   resolve_venv_path example_host = Inr [''C:'', ''venv'', ''Scripts'', ''python.exe'']"
proof -
  have 1: "run_command example_host (''py -'' @ ''3.11'' @ '' -m venv '' @ ''3.11'' @ ''_venv'') =
             (0, \<lambda>p. p = [''venv''] \<or> p = [''3.11_venv''])"
    by (simp add: example_host_def)
  have 2: "run_command example_host
             (path_str example_host (resolve example_host (sys_executable example_host)) @ '' -m venv venv'') =
             (0, \<lambda>p. p = [''venv''] \<or> p = [''3.11_venv''])"
    by (simp add: example_host_def)
  have 3: "\<not> is_in_venv example_host" by (simp add: is_in_venv_def example_host_def)
  have 4: "resolve example_host [''3.11'' @ ''_venv'', ''Scripts'', ''python.exe''] =
             [''C:'', ''3.11_venv'', ''Scripts'', ''python.exe'']"
    by (simp add: example_host_def)
  have 5: "resolve example_host [''venv'', ''Scripts'', ''python.exe''] =
             [''C:'', ''venv'', ''Scripts'', ''python.exe'']"
    by (simp add: example_host_def)
  from venv_failures [OF 1 2, of "[''C:'', ''3.11_venv'', ''Scripts'', ''python.exe'']"] 4
  have a: "create_venv_with_version example_host ''3.11'' =
     Inr [''C:'', ''3.11_venv'', ''Scripts'', ''python.exe'']" by simp
  from venv_failures [OF 1 2, of "[''C:'', ''venv'', ''Scripts'', ''python.exe'']"] 3 5
  have b: "resolve_venv_path example_host = Inr [''C:'', ''venv'', ''Scripts'', ''python.exe'']"
    by simp
  from a b show ?thesis by simp
qed

text \<open>
  C8 as stated fails: when the creation exits zero and leaves the environment directory
  without an interpreter in it, the path of the missing interpreter is returned; and
  when the directory itself is missing the exception is FileNotFoundError, which is not
  a RuntimeError.
\<close>

theorem venv_missing_interpreter_accepted:
  "\<not> snd (run_command example_host ''py -3.11 -m venv 3.11_venv'')
        [''3.11_venv'', ''Scripts'', ''python.exe''] \<and>
   create_venv_with_version example_host ''3.11'' =
     Inr [''C:'', ''3.11_venv'', ''Scripts'', ''python.exe''] \<and>
   create_venv_with_version (example_host\<lparr>run_command := \<lambda>cmd. (0, \<lambda>p. False)\<rparr>) ''3.11'' =
     Inl FileNotFoundError"
  by (simp add: create_venv_with_version_def example_host_def)

subsection \<open>The representative statistic\<close>




subsection \<open>The benchmark runner\<close>

lemma timed_loop_ok:
  "(\<forall>i. k \<le> i \<and> i < k + n \<longrightarrow> fst (runs i) = 0) \<Longrightarrow>
   timed_loop runs n k acc = (Inr (acc @ map (\<lambda>i. snd (runs i)) [k..<k + n]), k + n)"
proof (induction n arbitrary: k acc)
  case 0
  then show ?case by simp
next
  case (Suc n)
  from Suc.prems have z: "fst (runs k) = 0" by simp
  from Suc.prems have "\<forall>i. Suc k \<le> i \<and> i < Suc k + n \<longrightarrow> fst (runs i) = 0" by simp
  from Suc.IH [OF this]
  have "timed_loop runs n (Suc k) (acc @ [snd (runs k)]) =
          (Inr ((acc @ [snd (runs k)]) @ map (\<lambda>i. snd (runs i)) [Suc k..<Suc k + n]), Suc k + n)" .
  moreover have "[k..<k + Suc n] = k # [Suc k..<Suc k + n]" by (simp add: upt_conv_Cons)
  ultimately show ?case using z by simp
qed

lemma timed_loop_fail:
  "k \<le> j \<Longrightarrow> j < k + n \<Longrightarrow> fst (runs j) \<noteq> 0 \<Longrightarrow>
   (\<forall>i. k \<le> i \<and> i < j \<longrightarrow> fst (runs i) = 0) \<Longrightarrow>
   timed_loop runs n k acc = (Inl RuntimeError, Suc j)"
proof (induction n arbitrary: k acc)
  case 0
  then show ?case by simp
next
  case (Suc n)
  show ?case
  proof (cases "k = j")
    case True
    with Suc.prems show ?thesis by simp
  next
    case False
    with Suc.prems have z: "fst (runs k) = 0" and le: "Suc k \<le> j" and lt: "j < Suc k + n"
      by simp_all
    from Suc.prems have "\<forall>i. Suc k \<le> i \<and> i < j \<longrightarrow> fst (runs i) = 0" by simp
    from Suc.IH [OF le lt Suc.prems(3) this] z show ?thesis by simp
  qed
qed

lemma timed_loop_Inr:
  "timed_loop runs n k acc = (Inr xs, k') \<Longrightarrow>
   xs = acc @ map (\<lambda>i. snd (runs i)) [k..<k + n] \<and> k' = k + n"
proof (induction n arbitrary: k acc)
  case 0
  then show ?case by simp
next
  case (Suc n)
  from Suc.prems have z: "fst (runs k) = 0" by (auto split: if_splits)
  with Suc.prems have "timed_loop runs n (Suc k) (acc @ [snd (runs k)]) = (Inr xs, k')" by simp
  from Suc.IH [OF this]
  have "xs = (acc @ [snd (runs k)]) @ map (\<lambda>i. snd (runs i)) [Suc k..<Suc k + n] \<and> k' = Suc k + n" .
  moreover have "[k..<k + Suc n] = k # [Suc k..<Suc k + n]" by (simp add: upt_conv_Cons)
  ultimately show ?case by simp
qed

lemma trim_warmup_nonempty: "ws \<noteq> [] \<Longrightarrow> \<exists>t. trim_warmup ws = Inr t"
  by (cases ws) (simp_all add: trim_warmup_def)

lemma trim_warmup_empty: "trim_warmup [] = Inl ValueError"
  by (simp add: trim_warmup_def)

lemma fold_max_Max: "fold max xs (x::rat) = Max (set (x # xs))"
  by (rule Max.set_eq_fold [symmetric])

lemma trim_warmup_strict:
  assumes "2 \<le> length ws" and "\<forall>x\<in>set (tl ws). x < hd ws"
  shows "trim_warmup ws = Inr (tl ws)"
proof -
  from assms(1) obtain w0 rest where ws: "ws = w0 # rest" by (cases ws) auto
  from assms(2) ws have lt: "\<forall>x\<in>set rest. x < w0" by simp
  have "Max (set (w0 # rest)) = w0"
  proof (rule Max_eqI)
    show "finite (set (w0 # rest))" by simp
    show "\<And>y. y \<in> set (w0 # rest) \<Longrightarrow> y \<le> w0" using lt by auto
    show "w0 \<in> set (w0 # rest)" by simp
  qed
  then have "py_max ws = Inr w0" unfolding ws py_max.simps fold_max_Max by simp
  then show ?thesis unfolding trim_warmup_def by (simp add: ws)
qed

text \<open>
  C2: a warm-up list of at least two samples whose first sample is strictly the largest
  is trimmed to its other samples, in their order. Whenever the runner returns, its
  \<^verbatim>\<open>warmup\<close> entry is that trim of the warm-up samples captured and its \<^verbatim>\<open>benchmark\<close>
  entry is every sample of the measurement loop, untouched; and it does return when the
  mode is known, the iteration count is positive and every run exits with 0.
\<close>

theorem warmup_trim:
  "(2 \<le> length ws \<and> (\<forall>x\<in>set (tl ws). x < hd ws) \<longrightarrow> trim_warmup ws = Inr (tl ws)) \<and>
   (run_benchmark iterations type runs = (Inr d, k) \<longrightarrow>
      (\<exists>trimmed. trim_warmup (map (\<lambda>i. snd (runs i)) [0..<nat iterations]) = Inr trimmed \<and>
         d = [(''warmup'', trimmed),
              (''benchmark'', map (\<lambda>i. snd (runs i)) [nat iterations..<2 * nat iterations])])) \<and>
   ((type = ''Nuitka'' \<or> type = ''CPython'') \<and> 0 < iterations \<and>
    (\<forall>i<2 * nat iterations. fst (runs i) = 0) \<longrightarrow>
      (\<exists>d. run_benchmark iterations type runs = (Inr d, 2 * nat iterations)))"
proof (intro conjI impI)
  assume "2 \<le> length ws \<and> (\<forall>x\<in>set (tl ws). x < hd ws)"
  then show "trim_warmup ws = Inr (tl ws)" using trim_warmup_strict by blast
next
  define n where "n = nat iterations"
  assume r: "run_benchmark iterations type runs = (Inr d, k)"
  then have ty: "\<not> (type \<noteq> ''Nuitka'' \<and> type \<noteq> ''CPython'')"
    unfolding run_benchmark_def by (auto split: if_splits)
  obtain r1 k1 where l1: "timed_loop runs n 0 [] = (r1, k1)" by (cases "timed_loop runs n 0 []")
  from r ty l1 obtain warm where r1: "r1 = Inr warm"
    unfolding run_benchmark_def n_def [symmetric] by (cases r1) auto
  from timed_loop_Inr [OF l1 [unfolded r1]]
  have warm: "warm = map (\<lambda>i. snd (runs i)) [0..<n]" and k1: "k1 = n" by simp_all
  from r ty l1 r1 obtain trimmed where t: "trim_warmup warm = Inr trimmed"
    unfolding run_benchmark_def n_def [symmetric] by (cases "trim_warmup warm") auto
  obtain r2 k2 where l2: "timed_loop runs n k1 [] = (r2, k2)" by (cases "timed_loop runs n k1 []")
  from r ty l1 r1 t l2 obtain bench where r2: "r2 = Inr bench"
    unfolding run_benchmark_def n_def [symmetric] by (cases r2) auto
  from timed_loop_Inr [OF l2 [unfolded r2]] k1
  have bench: "bench = map (\<lambda>i. snd (runs i)) [n..<2 * n]" by (simp add: mult_2)
  from r ty l1 r1 t l2 r2 have "d = [(''warmup'', trimmed), (''benchmark'', bench)]"
    unfolding run_benchmark_def n_def [symmetric] by simp
  with t warm bench
  show "\<exists>trimmed. trim_warmup (map (\<lambda>i. snd (runs i)) [0..<nat iterations]) = Inr trimmed \<and>
         d = [(''warmup'', trimmed),
              (''benchmark'', map (\<lambda>i. snd (runs i)) [nat iterations..<2 * nat iterations])]"
    unfolding n_def by blast
next
  define n where "n = nat iterations"
  assume a: "(type = ''Nuitka'' \<or> type = ''CPython'') \<and> 0 < iterations \<and>
    (\<forall>i<2 * nat iterations. fst (runs i) = 0)"
  then have ty: "\<not> (type \<noteq> ''Nuitka'' \<and> type \<noteq> ''CPython'')" and pos: "0 < n"
    and z: "\<forall>i<2 * n. fst (runs i) = 0" unfolding n_def by auto
  from z have "\<forall>i. 0 \<le> i \<and> i < 0 + n \<longrightarrow> fst (runs i) = 0" by simp
  from timed_loop_ok [OF this, of "[]"]
  have l1: "timed_loop runs n 0 [] = (Inr (map (\<lambda>i. snd (runs i)) [0..<n]), n)" by simp
  from pos have "map (\<lambda>i. snd (runs i)) [0..<n] \<noteq> []" by simp
  from trim_warmup_nonempty [OF this] obtain trimmed
    where t: "trim_warmup (map (\<lambda>i. snd (runs i)) [0..<n]) = Inr trimmed" ..
  from z have "\<forall>i. n \<le> i \<and> i < n + n \<longrightarrow> fst (runs i) = 0" by simp
  from timed_loop_ok [OF this, of "[]"]
  have l2: "timed_loop runs n n [] = (Inr (map (\<lambda>i. snd (runs i)) [n..<n + n]), n + n)" by simp
  have "run_benchmark iterations type runs =
          (Inr [(''warmup'', trimmed), (''benchmark'', map (\<lambda>i. snd (runs i)) [n..<n + n])], n + n)"
    unfolding run_benchmark_def n_def [symmetric] using ty l1 t l2 by simp
  then show "\<exists>d. run_benchmark iterations type runs = (Inr d, 2 * nat iterations)"
    unfolding n_def by (simp add: mult_2)
qed

theorem warmup_trim_witness:
  "trim_warmup [5, 2, 3] = Inr [2, 3] \<and>
   run_benchmark 3 ''Nuitka'' (\<lambda>k. (0, [5, 2, 3, 4, 1, 6] ! k)) =
     (Inr [(''warmup'', [2, 3]), (''benchmark'', [4, 1, 6])], 6)"
proof -
  let ?runs = "\<lambda>k::nat. (0::int, [5, 2, 3, 4, 1, 6::rat] ! k)"
  have r: "run_benchmark 3 ''Nuitka'' ?runs =
     (Inr [(''warmup'', [2, 3]), (''benchmark'', [4, 1, 6])], 6)"
    by code_simp
  have h: "2 \<le> length [5, 2, 3::rat] \<and> (\<forall>x\<in>set (tl [5, 2, 3::rat]). x < hd [5, 2, 3])" by simp
  from warmup_trim [of "[5, 2, 3]" 3 "''Nuitka''" ?runs
      "[(''warmup'', [2, 3]), (''benchmark'', [4, 1, 6])]" 6] h r
  show ?thesis by simp
qed

text \<open>
  C7: let run \<open>j\<close> be the first whose exit code is not zero, in the warm-up loop or in
  the measurement loop. Then the runner raises RuntimeError, no mapping is returned, and
  exactly \<open>j + 1\<close> subprocesses have been started: none after the failing one.
\<close>

theorem nonzero_exit_aborts:
  assumes "type = ''Nuitka'' \<or> type = ''CPython''"
    and "j < 2 * nat iterations"
    and "fst (runs j) \<noteq> 0"
    and "\<forall>i<j. fst (runs i) = 0"
  shows "run_benchmark iterations type runs = (Inl RuntimeError, Suc j)"
proof -
  define n where "n = nat iterations"
  from assms(1) have ty: "\<not> (type \<noteq> ''Nuitka'' \<and> type \<noteq> ''CPython'')" by simp
  from assms(2) have j: "j < n + n" unfolding n_def by simp
  show ?thesis
  proof (cases "j < n")
    case True
    from assms(4) have "\<forall>i. 0 \<le> i \<and> i < j \<longrightarrow> fst (runs i) = 0" by simp
    with True assms(3) have "timed_loop runs n 0 [] = (Inl RuntimeError, Suc j)"
      using timed_loop_fail [of 0 j n runs "[]"] by simp
    then show ?thesis unfolding run_benchmark_def n_def [symmetric] using ty by simp
  next
    case False
    then have nj: "n \<le> j" by simp
    with j have pos: "0 < n" by simp
    from assms(4) nj have "\<forall>i. 0 \<le> i \<and> i < 0 + n \<longrightarrow> fst (runs i) = 0" by simp
    from timed_loop_ok [OF this, of "[]"]
    have l1: "timed_loop runs n 0 [] = (Inr (map (\<lambda>i. snd (runs i)) [0..<n]), n)" by simp
    from pos have "map (\<lambda>i. snd (runs i)) [0..<n] \<noteq> []" by simp
    from trim_warmup_nonempty [OF this] obtain trimmed
      where t: "trim_warmup (map (\<lambda>i. snd (runs i)) [0..<n]) = Inr trimmed" ..
    from assms(4) have "\<forall>i. n \<le> i \<and> i < j \<longrightarrow> fst (runs i) = 0" by simp
    from timed_loop_fail [OF nj j assms(3) this, of "[]"]
    have l2: "timed_loop runs n n [] = (Inl RuntimeError, Suc j)" .
    show ?thesis unfolding run_benchmark_def n_def [symmetric] using ty l1 t l2 by simp
  qed
qed

theorem nonzero_exit_aborts_witness:
  "run_benchmark 3 ''CPython'' (\<lambda>k. (if k = 4 then 1 else 0, 1)) = (Inl RuntimeError, 5) \<and>
   run_benchmark 3 ''CPython'' (\<lambda>k. (if 1 \<le> k then 2 else 0, 1)) = (Inl RuntimeError, 2)"
proof -
  have a: "run_benchmark 3 ''CPython'' (\<lambda>k. (if k = 4 then 1 else 0, 1)) = (Inl RuntimeError, Suc 4)"
    by (rule nonzero_exit_aborts) simp_all
  have b: "run_benchmark 3 ''CPython'' (\<lambda>k. (if 1 \<le> k then 2 else 0, 1)) = (Inl RuntimeError, Suc 1)"
    by (rule nonzero_exit_aborts) simp_all
  from a b show ?thesis by simp
qed

subsection \<open>The aggregator: the walk and the files it parses\<close>

lemma scan_date_parsed:
  "scan_date bm fs c =
     (case parsed_date bm fs of Inl e \<Rightarrow> Inl e | Inr bs \<Rightarrow> Inr (foldl setdefault_append c bs))"
  by (induction bm fs c rule: scan_date.induct) (auto split: sum.splits)

lemma scan_results_parsed:
  "scan_results bm ds c =
     (case parsed_results bm ds of Inl e \<Rightarrow> Inl e | Inr bs \<Rightarrow> Inr (foldl setdefault_append c bs))"
  by (induction bm ds c rule: scan_results.induct)
     (auto simp: scan_date_parsed split: sum.splits)

lemma scan_benchmarks_parsed:
  "scan_benchmarks items c =
     (case parsed_records items of Inl e \<Rightarrow> Inl e | Inr bs \<Rightarrow> Inr (foldl setdefault_append c bs))"
  by (induction items c rule: scan_benchmarks.induct)
     (auto simp: scan_results_parsed split: sum.splits)

lemma results_container_parsed:
  "results_container items =
     (case parsed_records items of Inl e \<Rightarrow> Inl e | Inr bs \<Rightarrow> Inr (foldl setdefault_append [] bs))"
  unfolding results_container_def by (rule scan_benchmarks_parsed)

subsection \<open>The aggregator: buckets\<close>

lemma keys_setdefault_append:
  "fst ` set (setdefault_append c b) = insert (python_version b) (fst ` set c)"
  by (induction c b rule: setdefault_append.induct) auto

lemma keys_foldl:
  "fst ` set (foldl setdefault_append c bs) = fst ` set c \<union> python_version ` set bs"
  by (induction bs arbitrary: c) (auto simp: keys_setdefault_append)

lemma buckets_ok_setdefault_append:
  "buckets_ok c \<Longrightarrow> buckets_ok (setdefault_append c b)"
  unfolding buckets_ok_def by (induction c b rule: setdefault_append.induct) auto

lemma buckets_ok_foldl:
  "buckets_ok c \<Longrightarrow> buckets_ok (foldl setdefault_append c bs)"
  by (induction bs arbitrary: c) (simp_all add: buckets_ok_setdefault_append)

lemma members_setdefault_append:
  "(\<Union>(k, bs)\<in>set (setdefault_append c b). set bs) = insert b (\<Union>(k, bs)\<in>set c. set bs)"
  by (induction c b rule: setdefault_append.induct) auto

lemma members_foldl:
  "(\<Union>(k, xs)\<in>set (foldl setdefault_append c bs). set xs) = (\<Union>(k, xs)\<in>set c. set xs) \<union> set bs"
  by (induction bs arbitrary: c) (auto simp: members_setdefault_append)

lemma set_sorted_results: "set (sorted_results c) = set c"
  by (simp add: sorted_results_def)

subsection \<open>The aggregator: the version column identifies the version\<close>

lemma digit_val_digit_char: "digit_val (digit_char d) = int (d mod 10)"
proof -
  have "d mod 10 = 0 \<or> d mod 10 = 1 \<or> d mod 10 = 2 \<or> d mod 10 = 3 \<or> d mod 10 = 4 \<or>
        d mod 10 = 5 \<or> d mod 10 = 6 \<or> d mod 10 = 7 \<or> d mod 10 = 8 \<or> d mod 10 = 9"
    by presburger
  then show ?thesis unfolding digit_char_def digit_val_def
    by (elim disjE) simp_all
qed

lemma digits_value_show_nat: "digits_value (show_nat n) = int n"
proof (induction n rule: show_nat.induct)
  case (1 n)
  show ?case
  proof (cases "n < 10")
    case True
    then have "show_nat n = [digit_char n]" by (simp add: show_nat.simps)
    then show ?thesis using True by (simp add: digits_value_def digit_val_digit_char)
  next
    case False
    then have eq: "show_nat n = show_nat (n div 10) @ [digit_char (n mod 10)]"
      by (subst show_nat.simps) simp
    from False 1 have ih: "digits_value (show_nat (n div 10)) = int (n div 10)" by simp
    have "digits_value (show_nat n) = 10 * digits_value (show_nat (n div 10)) + digit_val (digit_char (n mod 10))"
      unfolding eq digits_value_def by simp
    also have "\<dots> = 10 * int (n div 10) + int (n mod 10)"
      by (simp add: ih digit_val_digit_char)
    also have "\<dots> = int n" by (simp add: zdiv_int zmod_int)
    finally show ?thesis .
  qed
qed

lemma show_nat_inj: "show_nat n = show_nat m \<Longrightarrow> n = m"
proof -
  assume "show_nat n = show_nat m"
  then have "digits_value (show_nat n) = digits_value (show_nat m)" by simp
  then show "n = m" by (simp add: digits_value_show_nat)
qed

lemma show_nat_no_minus: "CHR ''-'' \<notin> set (show_nat n)"
  using show_nat_digits [of n] by auto

lemma show_nat_no_point: "CHR ''.'' \<notin> set (show_nat n)"
  using show_nat_digits [of n] by auto

lemma show_nat_hd: "hd (show_nat n) \<noteq> CHR ''-''"
  using show_nat_no_minus [of n] show_nat_nonempty [of n] by (metis hd_in_set)

lemma py_str_int_inj: "py_str_int i = py_str_int j \<Longrightarrow> i = j"
proof -
  assume e: "py_str_int i = py_str_int j"
  consider "i < 0" "j < 0" | "i < 0" "\<not> j < 0" | "\<not> i < 0" "j < 0" | "\<not> i < 0" "\<not> j < 0"
    by blast
  then show "i = j"
  proof cases
    case 1
    with e have "show_nat (nat (- i)) = show_nat (nat (- j))" by (simp add: py_str_int_def)
    then have "nat (- i) = nat (- j)" by (rule show_nat_inj)
    with 1 show ?thesis by simp
  next
    case 2
    with e have "CHR ''-'' # show_nat (nat (- i)) = show_nat (nat j)" by (simp add: py_str_int_def)
    then have "hd (show_nat (nat j)) = CHR ''-''" by (metis list.sel(1))
    with show_nat_hd show ?thesis by blast
  next
    case 3
    with e have "show_nat (nat i) = CHR ''-'' # show_nat (nat (- j))" by (simp add: py_str_int_def)
    then have "hd (show_nat (nat i)) = CHR ''-''" by (metis list.sel(1))
    with show_nat_hd show ?thesis by blast
  next
    case 4
    with e have "show_nat (nat i) = show_nat (nat j)" by (simp add: py_str_int_def)
    then have "nat i = nat j" by (rule show_nat_inj)
    with 4 show ?thesis by simp
  qed
qed

lemma py_str_int_no_point: "CHR ''.'' \<notin> set (py_str_int i)"
  unfolding py_str_int_def using show_nat_no_point by simp

lemma version_str_inj: "version_str v = version_str w \<Longrightarrow> v = w"
proof -
  assume e: "version_str v = version_str w"
  let ?P = "\<lambda>c. c \<noteq> CHR ''.''"
  have tw: "\<And>u. takeWhile ?P (version_str u) = py_str_int (fst u)"
    unfolding version_str_def using py_str_int_no_point
    by (subst takeWhile_append2) auto
  have dw: "\<And>u. dropWhile ?P (version_str u) = ''.'' @ py_str_int (snd u)"
    unfolding version_str_def using py_str_int_no_point
    by (subst dropWhile_append2) auto
  from e tw [of v] tw [of w] have "py_str_int (fst v) = py_str_int (fst w)" by simp
  then have 1: "fst v = fst w" by (rule py_str_int_inj)
  from e dw [of v] dw [of w] have "py_str_int (snd v) = py_str_int (snd w)" by simp
  then have 2: "snd v = snd w" by (rule py_str_int_inj)
  from 1 2 show "v = w" by (rule prod_eqI)
qed

subsection \<open>The aggregator: rows and tables\<close>

lemma add_rows_Inr:
  "add_rows v bs t = Inr t' \<Longrightarrow>
   \<exists>new. rows t' = rows t @ new \<and> length new = length bs \<and> (\<forall>r\<in>set new. last r = version_str v)"
proof (induction bs arbitrary: t)
  case Nil
  then show ?case by simp
next
  case (Cons b bs)
  from Cons.prems obtain c n where c: "calculate_cpython_stats b = Inr c"
    and n: "calculate_nuitka_stats b = Inr n"
    and r: "add_rows v bs (t\<lparr>rows := rows t @ [[benchmark_name b, c, n, version_str v]]\<rparr>) = Inr t'"
    by (auto split: sum.splits)
  from Cons.IH [OF r] obtain new where
    new: "rows t' = (rows t @ [[benchmark_name b, c, n, version_str v]]) @ new"
      "length new = length bs" "\<forall>r\<in>set new. last r = version_str v"
    by auto
  let ?new = "[benchmark_name b, c, n, version_str v] # new"
  from new have "rows t' = rows t @ ?new \<and> length ?new = length (b # bs) \<and>
      (\<forall>r\<in>set ?new. last r = version_str v)" by simp
  then show ?case by blast
qed

lemma add_rows_ok:
  "\<forall>b\<in>set bs. \<not> isl (calculate_cpython_stats b) \<and> \<not> isl (calculate_nuitka_stats b) \<Longrightarrow>
   \<exists>t'. add_rows v bs t = Inr t'"
proof (induction bs arbitrary: t)
  case Nil
  then show ?case by simp
next
  case (Cons b bs)
  from Cons.prems obtain c n where c: "calculate_cpython_stats b = Inr c"
    and n: "calculate_nuitka_stats b = Inr n"
    by (cases "calculate_cpython_stats b"; cases "calculate_nuitka_stats b") auto
  from Cons.prems have "\<forall>b\<in>set bs. \<not> isl (calculate_cpython_stats b) \<and> \<not> isl (calculate_nuitka_stats b)"
    by simp
  from Cons.IH [OF this] c n show ?case by simp
qed

lemma new_table_rows: "rows new_table = []"
  by (simp add: new_table_def)

lemma print_tables_without:
  "print_tables c printed = (out, err) \<Longrightarrow>
   \<forall>t\<in>set printed. table_without v t \<Longrightarrow>
   \<forall>(k, bs)\<in>set c. bs \<noteq> [] \<and> k \<noteq> v \<Longrightarrow>
   \<forall>t\<in>set out. table_without v t"
proof (induction c printed rule: print_tables.induct)
  case (1 printed)
  then show ?case by simp
next
  case (2 k bs rest printed)
  show ?case
  proof (cases "add_rows k bs new_table")
    case (Inl e)
    with "2.prems" show ?thesis by simp
  next
    case (Inr t)
    from add_rows_Inr [OF Inr] obtain new where
      new: "rows t = new" "length new = length bs" "\<forall>r\<in>set new. last r = version_str k"
      by (auto simp: new_table_rows)
    from "2.prems"(3) have ne: "bs \<noteq> []" and kv: "k \<noteq> v" by auto
    from kv have "version_str k \<noteq> version_str v" using version_str_inj by blast
    with new ne have tw: "table_without v t" unfolding table_without_def by auto
    from "2.prems"(1) Inr have p: "print_tables rest (printed @ [t]) = (out, err)" by simp
    from "2.prems"(2) tw have a: "\<forall>t\<in>set (printed @ [t]). table_without v t" by simp
    from "2.prems"(3) have b: "\<forall>(k, bs)\<in>set rest. bs \<noteq> [] \<and> k \<noteq> v" by simp
    from "2.IH" [OF Inr p a b] show ?thesis .
  qed
qed

lemma print_tables_ok:
  "\<forall>(k, bs)\<in>set c. \<forall>b\<in>set bs. \<not> isl (calculate_cpython_stats b) \<and> \<not> isl (calculate_nuitka_stats b) \<Longrightarrow>
   \<exists>out. print_tables c printed = (out, None) \<and> length out = length printed + length c"
proof (induction c printed rule: print_tables.induct)
  case (1 printed)
  then show ?case by simp
next
  case (2 k bs rest printed)
  from "2.prems" have "\<forall>b\<in>set bs. \<not> isl (calculate_cpython_stats b) \<and> \<not> isl (calculate_nuitka_stats b)"
    by simp
  from add_rows_ok [OF this] obtain t where t: "add_rows k bs new_table = Inr t" by blast
  from "2.prems" have "\<forall>(k, bs)\<in>set rest. \<forall>b\<in>set bs.
      \<not> isl (calculate_cpython_stats b) \<and> \<not> isl (calculate_nuitka_stats b)" by simp
  from "2.IH" [OF t this] t show ?case by simp
qed

lemma distinct_setdefault_append:
  "distinct (map fst c) \<Longrightarrow> distinct (map fst (setdefault_append c b))"
proof (induction c b rule: setdefault_append.induct)
  case (1 b)
  then show ?case by simp
next
  case (2 k bs rest b)
  show ?case
  proof (cases "k = python_version b")
    case True
    with "2.prems" show ?thesis by simp
  next
    case False
    from "2.prems" have d: "distinct (map fst rest)" and kn: "k \<notin> fst ` set rest" by simp_all
    from kn False have "k \<notin> fst ` set (setdefault_append rest b)"
      unfolding keys_setdefault_append by simp
    with "2.IH" [OF False d] False show ?thesis by simp
  qed
qed

lemma distinct_foldl:
  "distinct (map fst c) \<Longrightarrow> distinct (map fst (foldl setdefault_append c bs))"
  by (induction bs arbitrary: c) (simp_all add: distinct_setdefault_append)

lemma length_sorted_results: "length (sorted_results c) = length c"
  by (simp add: sorted_results_def)

text \<open>
  C9: when the walk parses its files and none of them has the interpreter version \<open>v\<close>,
  the container has no bucket for \<open>v\<close> (its keys are exactly the versions of the parsed
  records, and no bucket is empty), every table printed has a row and none of its rows
  shows \<open>v\<close> in the version column. The run does not fail for the lack of such files:
  it ends without an exception whenever the statistics of the parsed records can be
  computed, with one table per version present, and with no table at all when no file
  was parsed.
\<close>

theorem absent_version_no_table:
  assumes "parsed_records items = Inr rs" and "v \<notin> python_version ` set rs"
  shows "(\<exists>c. results_container items = Inr c \<and> v \<notin> fst ` set c \<and>
              fst ` set c = python_version ` set rs \<and> (\<forall>(k, bs)\<in>set c. bs \<noteq> [])) \<and>
         (\<forall>t\<in>set (fst (sampler items)).
            rows t \<noteq> [] \<and> (\<forall>r\<in>set (rows t). last r \<noteq> version_str v)) \<and>
         ((\<forall>b\<in>set rs. \<not> isl (calculate_cpython_stats b) \<and> \<not> isl (calculate_nuitka_stats b)) \<longrightarrow>
            snd (sampler items) = None \<and>
            length (fst (sampler items)) = card (python_version ` set rs)) \<and>
         (rs = [] \<longrightarrow> sampler items = ([], None))"
proof -
  define c where "c = foldl setdefault_append [] rs"
  have rc: "results_container items = Inr c"
    unfolding results_container_parsed assms(1) c_def by simp
  have keys: "fst ` set c = python_version ` set rs"
    unfolding c_def keys_foldl by simp
  have "buckets_ok []" by (simp add: buckets_ok_def)
  then have ok: "buckets_ok c" unfolding c_def by (rule buckets_ok_foldl)
  then have ne: "\<forall>(k, bs)\<in>set c. bs \<noteq> []" unfolding buckets_ok_def by auto
  have members: "(\<Union>(k, xs)\<in>set c. set xs) = set rs"
    unfolding c_def members_foldl by simp
  have dist: "distinct (map fst c)" unfolding c_def by (rule distinct_foldl) simp
  have s: "sampler items = print_tables (sorted_results c) []"
    unfolding sampler_def rc by simp
  from keys assms(2) have vk: "v \<notin> fst ` set c" by simp
  have 1: "\<exists>c. results_container items = Inr c \<and> v \<notin> fst ` set c \<and>
              fst ` set c = python_version ` set rs \<and> (\<forall>(k, bs)\<in>set c. bs \<noteq> [])"
    using rc vk keys ne by blast
  have 2: "\<forall>t\<in>set (fst (sampler items)).
            rows t \<noteq> [] \<and> (\<forall>r\<in>set (rows t). last r \<noteq> version_str v)"
  proof -
    obtain out err where p: "print_tables (sorted_results c) [] = (out, err)"
      by (cases "print_tables (sorted_results c) []")
    have a: "\<forall>t\<in>set []. table_without v t" by simp
    from ne vk have b: "\<forall>(k, bs)\<in>set (sorted_results c). bs \<noteq> [] \<and> k \<noteq> v"
      unfolding set_sorted_results by force
    from print_tables_without [OF p a b] have "\<forall>t\<in>set out. table_without v t" .
    then show ?thesis unfolding s p table_without_def by simp
  qed
  have 3: "(\<forall>b\<in>set rs. \<not> isl (calculate_cpython_stats b) \<and> \<not> isl (calculate_nuitka_stats b)) \<longrightarrow>
            snd (sampler items) = None \<and>
            length (fst (sampler items)) = card (python_version ` set rs)"
  proof
    assume good: "\<forall>b\<in>set rs. \<not> isl (calculate_cpython_stats b) \<and> \<not> isl (calculate_nuitka_stats b)"
    have "\<forall>(k, bs)\<in>set (sorted_results c). \<forall>b\<in>set bs.
        \<not> isl (calculate_cpython_stats b) \<and> \<not> isl (calculate_nuitka_stats b)"
    proof (clarify)
      fix k bs b
      assume "(k, bs) \<in> set (sorted_results c)" and "b \<in> set bs"
      then have "b \<in> (\<Union>(k, xs)\<in>set c. set xs)" unfolding set_sorted_results by blast
      then have "b \<in> set rs" unfolding members .
      with good show "\<not> isl (calculate_cpython_stats b) \<and> \<not> isl (calculate_nuitka_stats b)"
        by blast
    qed
    from print_tables_ok [OF this, of "[]"] obtain out where
      p: "print_tables (sorted_results c) [] = (out, None)"
      and l: "length out = length (sorted_results c)" by auto
    have "length c = card (fst ` set c)"
      using distinct_card [OF dist] by simp
    with l have "length out = card (python_version ` set rs)"
      unfolding length_sorted_results keys by simp
    with p show "snd (sampler items) = None \<and>
            length (fst (sampler items)) = card (python_version ` set rs)"
      unfolding s by simp
  qed
  have 4: "rs = [] \<longrightarrow> sampler items = ([], None)"
    unfolding s c_def by (simp add: sorted_results_def)
  from 1 2 3 4 show ?thesis by blast
qed

lemma example_tree_parsed:
  "parsed_records example_tree =
     Inr [\<lparr>target = ''target'', nuitka_version = ''nuitka1.3'', python_version = (3, 11),
           file_json = example_json,
           nuitka_stats = \<lparr>name = ''nuitka'', warmup = JArr [JNum 3, JNum 1, JNum 2],
                           benchmark = JArr [JNum 1, JNum 2]\<rparr>,
           cpython_stats = \<lparr>name = ''cpython'', warmup = JArr [JNum 5, JNum 4],
                            benchmark = JArr [JNum 4, JNum 6]\<rparr>,
           benchmark_name = ''ench''\<rparr>]"
  by (simp add: example_tree_def startswith_def from_path_def parse_example_name
      parse_stats_def example_json_def strip_def)

lemma example_tree_stats:
  "\<forall>b\<in>set [\<lparr>target = ''target'', nuitka_version = ''nuitka1.3'', python_version = (3, 11),
           file_json = example_json,
           nuitka_stats = \<lparr>name = ''nuitka'', warmup = JArr [JNum 3, JNum 1, JNum 2],
                           benchmark = JArr [JNum 1, JNum 2]\<rparr>,
           cpython_stats = \<lparr>name = ''cpython'', warmup = JArr [JNum 5, JNum 4],
                            benchmark = JArr [JNum 4, JNum 6]\<rparr>,
           benchmark_name = ''ench''\<rparr>].
     \<not> isl (calculate_cpython_stats b) \<and> \<not> isl (calculate_nuitka_stats b)"
  by (simp add: calculate_cpython_stats_def calculate_nuitka_stats_def stats_of_def
      calculate_stats_def mean_def)

theorem absent_version_no_table_witness:
  "sampler example_tree =
     ([\<lparr>title = ''Benchmarks'',
        columns = [''Benchmark'', ''CPython'', ''Nuitka Release'', ''Python Version''],
        rows = [[''ench'', ''4.50'', ''2.00'', ''3.11'']]\<rparr>], None) \<and>
   version_str (3, 12) = ''3.12'' \<and>
   snd (sampler example_tree) = None \<and>
   length (fst (sampler example_tree)) = 1 \<and>
   sampler [] = ([], None)"
proof -
  have v: "(3, 12) \<notin> python_version ` set
     [\<lparr>target = ''target'', nuitka_version = ''nuitka1.3'', python_version = (3, 11),
           file_json = example_json,
           nuitka_stats = \<lparr>name = ''nuitka'', warmup = JArr [JNum 3, JNum 1, JNum 2],
                           benchmark = JArr [JNum 1, JNum 2]\<rparr>,
           cpython_stats = \<lparr>name = ''cpython'', warmup = JArr [JNum 5, JNum 4],
                            benchmark = JArr [JNum 4, JNum 6]\<rparr>,
           benchmark_name = ''ench''\<rparr>]" by simp
  have e: "parsed_records [] = Inr []" by simp
  have v': "(3, 12) \<notin> python_version ` set []" by simp
  have s: "sampler example_tree =
     ([\<lparr>title = ''Benchmarks'',
        columns = [''Benchmark'', ''CPython'', ''Nuitka Release'', ''Python Version''],
        rows = [[''ench'', ''4.50'', ''2.00'', ''3.11'']]\<rparr>], None)"
    by code_simp
  have vs: "version_str (3, 12) = ''3.12''" by code_simp
  from absent_version_no_table [OF example_tree_parsed v] example_tree_stats
  have a: "snd (sampler example_tree) = None \<and> length (fst (sampler example_tree)) = 1"
    by simp
  from absent_version_no_table [OF e v'] have b: "sampler [] = ([], None)" by blast
  from s vs a b show ?thesis by blast
qed

end
